theory Spec2Isabelle
  imports Main "HOL-Library.Sublist"
begin

section \<open>Python values used by \<open>repo_slice.py\<close>\<close>

subsection \<open>Strings\<close>

text \<open>
  A Python \<open>str\<close> is a sequence of Unicode code points. It is modelled as the list of
  its code points, so that \<open>len\<close>, \<open>strip\<close> and \<open>splitlines\<close> count and classify
  what Python counts and classifies. \<open>ustr\<close> reads an ASCII literal of the source.
\<close>

type_synonym pystr = "nat list"

definition ustr :: "string \<Rightarrow> pystr" where
  "ustr s = map of_char s"

text \<open>
  The characters \<open>str.strip()\<close> removes when called without an argument: the code
  points for which \<open>str.isspace\<close> holds.
\<close>

definition is_space :: "nat \<Rightarrow> bool" where
  "is_space c \<longleftrightarrow>
     (0x09 \<le> c \<and> c \<le> 0x0D) \<or> (0x1C \<le> c \<and> c \<le> 0x20) \<or> c = 0x85 \<or> c = 0xA0 \<or>
     c = 0x1680 \<or> (0x2000 \<le> c \<and> c \<le> 0x200A) \<or> c = 0x2028 \<or> c = 0x2029 \<or>
     c = 0x202F \<or> c = 0x205F \<or> c = 0x3000"

definition strip :: "pystr \<Rightarrow> pystr" where
  "strip s = rev (dropWhile is_space (rev (dropWhile is_space s)))"

text \<open>
  The line boundaries of \<open>str.splitlines()\<close>. A carriage return directly followed by
  a line feed is one boundary; the boundaries are not part of the lines; a text that
  ends in a boundary has no empty last line.
\<close>

definition is_linebreak :: "nat \<Rightarrow> bool" where
  "is_linebreak c \<longleftrightarrow>
     c = 0x0A \<or> c = 0x0B \<or> c = 0x0C \<or> c = 0x0D \<or> c = 0x1C \<or> c = 0x1D \<or> c = 0x1E \<or>
     c = 0x85 \<or> c = 0x2028 \<or> c = 0x2029"

fun splitlines_from :: "pystr \<Rightarrow> pystr \<Rightarrow> pystr list" where
  "splitlines_from cur [] = (if cur = [] then [] else [cur])"
| "splitlines_from cur [c] =
     (if is_linebreak c then [cur] else [cur @ [c]])"
| "splitlines_from cur (c # d # cs) =
     (if c = 0x0D \<and> d = 0x0A then cur # splitlines_from [] cs
      else if is_linebreak c then cur # splitlines_from [] (d # cs)
      else splitlines_from (cur @ [c]) (d # cs))"

definition splitlines :: "pystr \<Rightarrow> pystr list" where
  "splitlines s = splitlines_from [] s"

text \<open>
  A \<open>str\<close> that the platform hands to the program (the text of a file, the output of
  a process) holds at most \<open>sys.maxsize\<close> code points: \<open>2 ^ 63 - 1\<close> on a 64-bit
  interpreter, fewer on a smaller one. \<open>chars\<close> gives the code points of such a text.
\<close>

typedef pytext = "{s :: nat list. length s \<le> 2 ^ 63 - 1}"
  morphisms chars Abs_pytext
  by (rule exI [of _ "[]"]) simp

definition mk_text :: "pystr \<Rightarrow> pytext" where
  "mk_text s = Abs_pytext (take (2 ^ 63 - 1) s)"

text \<open>\<open>sep.join(parts)\<close>.\<close>

fun join :: "pystr \<Rightarrow> pystr list \<Rightarrow> pystr" where
  "join sep [] = []"
| "join sep [x] = x"
| "join sep (x # y # ys) = x @ sep @ join sep (y # ys)"

text \<open>
  The slice \<open>xs[a:b]\<close> for integer bounds: a negative bound counts from the end of the
  list, and both bounds are clamped to the list.
\<close>

definition slice_index :: "nat \<Rightarrow> int \<Rightarrow> nat" where
  "slice_index n i = (if i < 0 then nat (max (int n + i) 0) else min (nat i) n)"

definition py_slice :: "'a list \<Rightarrow> int \<Rightarrow> int \<Rightarrow> 'a list" where
  "py_slice xs a b =
     (let lo = slice_index (length xs) a; hi = slice_index (length xs) b
      in take (hi - lo) (drop lo xs))"

subsection \<open>Integers and their decimal text\<close>

function str_nat :: "nat \<Rightarrow> pystr" where
  "str_nat n = (if n < 10 then [48 + n] else str_nat (n div 10) @ [48 + n mod 10])"
  by pat_completeness auto
termination
  by (relation "measure id") auto

declare str_nat.simps [simp del]

definition str_int :: "int \<Rightarrow> pystr" where
  "str_int i = (if i < 0 then 45 # str_nat (nat (- i)) else str_nat (nat i))"

text \<open>
  The conversion of an \<open>int\<close> to its decimal text raises \<open>ValueError\<close> when the
  number has more digits than \<open>sys.get_int_max_str_digits()\<close> allows (4300 unless the
  interpreter is told otherwise; 0 switches the limit off, as do interpreters older
  than the limit). The interpreter makes the test only for texts of more than 640
  digits. The sign does not count.
\<close>

definition over_digit_limit :: "nat \<Rightarrow> int \<Rightarrow> bool" where
  "over_digit_limit max_str_digits i \<longleftrightarrow>
     640 < length (str_nat (nat \<bar>i\<bar>)) \<and> 0 < max_str_digits \<and>
     max_str_digits < length (str_nat (nat \<bar>i\<bar>))"

text \<open>
  \<open>bool\<close> is a subclass of \<open>int\<close> in Python: \<open>isinstance(True, int)\<close> holds,
  \<open>True\<close> computes as 1 and prints as \<open>True\<close>. A value that passes the decoder's
  \<open>isinstance(line_no, int)\<close> test is therefore one of the two.
\<close>

datatype pyint = PyInt int | PyBool bool

fun int_val :: "pyint \<Rightarrow> int" where
  "int_val (PyInt i) = i"
| "int_val (PyBool b) = (if b then 1 else 0)"

fun str_pyint :: "pyint \<Rightarrow> pystr" where
  "str_pyint (PyInt i) = str_int i"
| "str_pyint (PyBool b) = (if b then ustr ''True'' else ustr ''False'')"

fun pyint_over_digit_limit :: "nat \<Rightarrow> pyint \<Rightarrow> bool" where
  "pyint_over_digit_limit max_str_digits (PyInt i) = over_digit_limit max_str_digits i"
| "pyint_over_digit_limit max_str_digits (PyBool b) = False"

subsection \<open>Decoded JSON\<close>

text \<open>
  What \<open>json.loads\<close> returns: \<open>None\<close>, a \<open>bool\<close>, an \<open>int\<close>, a \<open>float\<close>, a
  \<open>str\<close>, a \<open>list\<close> or a \<open>dict\<close> with string keys.
\<close>

text \<open>
  A \<open>float\<close> is a double: \<open>Finite m e\<close> stands for \<open>m * 2 ^ e\<close> (both signed
  zeros are \<open>Finite 0 e\<close>), or one of the three special values that \<open>json.loads\<close>
  also reads.
\<close>

datatype pyfloat = Finite int int | PosInf | NegInf | NaN

datatype json =
    JNull
  | JBool bool
  | JInt int
  | JFloat pyfloat
  | JStr pystr
  | JList "json list"
  | JDict "(pystr \<times> json) list"

text \<open>Truth value of a decoded value, as \<open>x or {}\<close> tests it.\<close>

fun truthy :: "json \<Rightarrow> bool" where
  "truthy JNull = False"
| "truthy (JBool b) = b"
| "truthy (JInt i) = (i \<noteq> 0)"
| "truthy (JFloat f) = (case f of Finite m e \<Rightarrow> m \<noteq> 0 | _ \<Rightarrow> True)"
| "truthy (JStr s) = (s \<noteq> [])"
| "truthy (JList xs) = (xs \<noteq> [])"
| "truthy (JDict kvs) = (kvs \<noteq> [])"

subsection \<open>Exceptions and effects\<close>

text \<open>\<open>OSError\<close> carries its \<open>errno\<close>.\<close>

datatype py_error =
    FileNotFoundError pystr
  | OSError nat
  | PermissionError
  | IsADirectoryError
  | JSONDecodeError
  | RecursionError
  | AttributeError
  | TypeError
  | ValueError

text \<open>
  The ways \<open>json.loads\<close> fails on a text: the text is not JSON
  (\<open>JSONDecodeError\<close>), it holds an integer literal with more digits than the limit
  on conversions allows (\<open>ValueError\<close>), or it is nested deeper than the interpreter's
  recursion limit (\<open>RecursionError\<close>).
\<close>

datatype loads_failure = NotJSON | IntegerTooLong | NestedTooDeep

fun loads_error :: "loads_failure \<Rightarrow> py_error" where
  "loads_error NotJSON = JSONDecodeError"
| "loads_error IntegerTooLong = ValueError"
| "loads_error NestedTooDeep = RecursionError"

text \<open>
  What a call does besides returning: it calls \<open>subprocess.run\<close> with a command
  line, or it calls \<open>print\<close> with a text. A call's outcome is the events it caused, in order, with
  either the exception it raised (\<open>Inl\<close>) or the value it returned (\<open>Inr\<close>).
\<close>

datatype event = Run "pystr list" | Print pystr

type_synonym 'a outcome = "event list \<times> (py_error + 'a)"

subsection \<open>The platform\<close>

text \<open>
  The operations of the Python library and of the operating system that the program
  calls and does not define, each with the exceptions it can raise, and the
  interpreter's limit on the digits of a converted integer. A path is represented by
  its text \<open>str(path)\<close>. \<open>Path.exists()\<close> returns \<open>False\<close> for a path that is not
  there, and raises \<open>OSError\<close> when the path cannot be examined at all (a name that
  is too long, a directory that may not be searched).
\<close>

type_synonym path = pystr

record completed_process =
  stdout :: "pytext option"
  stderr :: "pytext option"

record platform =
  Path :: "pystr \<Rightarrow> path"
  resolve :: "path \<Rightarrow> py_error + path"
  path_exists :: "path \<Rightarrow> py_error + bool"
  read_text :: "path \<Rightarrow> py_error + pytext"
  subprocess_run :: "pystr list \<Rightarrow> py_error + completed_process"
  json_loads :: "pystr \<Rightarrow> loads_failure + json"
  int_of_str :: "pystr \<Rightarrow> int option"
  int_max_str_digits :: nat

section \<open>The program\<close>

text \<open>The fields \<open>file\<close>, \<open>line\<close> and \<open>window\<close> of the source's \<open>Hit\<close>.\<close>

record Hit =
  hit_file :: path
  hit_line :: pyint
  hit_window :: pystr

definition DEFAULT_EXCLUDE_GLOBS :: "pystr list" where
  "DEFAULT_EXCLUDE_GLOBS =
     [ustr ''!**/.git/**'', ustr ''!**/node_modules/**'', ustr ''!**/dist/**'',
      ustr ''!**/build/**'', ustr ''!**/.next/**'', ustr ''!**/out/**'',
      ustr ''!**/coverage/**'', ustr ''!**/.turbo/**'', ustr ''!**/.cache/**'',
      ustr ''!**/.venv/**'', ustr ''!**/venv/**'', ustr ''!**/__pycache__/**'']"

subsection \<open>\<open>slice_window\<close>\<close>

definition window_header :: "path \<Rightarrow> pyint \<Rightarrow> int \<Rightarrow> int \<Rightarrow> pystr" where
  "window_header file_path center_line start end =
     file_path @ ustr '':'' @ str_pyint center_line @ ustr '' (lines '' @
     str_int (start + 1) @ ustr ''-'' @ str_int end @ ustr '')''"

text \<open>
  The f-string of the header converts three numbers; the first that is over the digit
  limit raises.
\<close>

definition format_header :: "platform \<Rightarrow> path \<Rightarrow> pyint \<Rightarrow> int \<Rightarrow> int \<Rightarrow> py_error + pystr" where
  "format_header os file_path center_line start end =
     (if pyint_over_digit_limit (int_max_str_digits os) center_line \<or>
         over_digit_limit (int_max_str_digits os) (start + 1) \<or>
         over_digit_limit (int_max_str_digits os) end
      then Inl ValueError
      else Inr (window_header file_path center_line start end))"

definition slice_window :: "platform \<Rightarrow> path \<Rightarrow> pyint \<Rightarrow> int \<Rightarrow> py_error + pystr" where
  "slice_window os file_path center_line radius =
     (case path_exists os file_path of
        Inl e \<Rightarrow> Inl e
      | Inr found \<Rightarrow>
          if \<not> found then Inr []
          else if int_val center_line \<le> 0 then Inr []
          else case read_text os file_path of
            Inl e \<Rightarrow> Inl e
          | Inr text \<Rightarrow>
              (let lines = splitlines (chars text) in
               if length lines = 0 then Inr []
               else
                 (let idx = max (int_val center_line - 1) 0;
                      start = max (idx - radius) 0;
                      end = min (idx + radius + 1) (int (length lines))
                  in case format_header os file_path center_line start end of
                       Inl e \<Rightarrow> Inl e
                     | Inr header \<Rightarrow>
                         (let body = join [0x0A] (py_slice lines start end)
                          in Inr (header @ [0x0A] @ body)))))"

subsection \<open>\<open>run_rg\<close>\<close>

text \<open>\<open>d.get(k)\<close>: the value stored under the key, \<open>None\<close> when there is none.\<close>

definition dict_get :: "(pystr \<times> json) list \<Rightarrow> pystr \<Rightarrow> json" where
  "dict_get d k = (case map_of d k of None \<Rightarrow> JNull | Some v \<Rightarrow> v)"

text \<open>\<open>x or {}\<close>.\<close>

definition or_empty_dict :: "json \<Rightarrow> json" where
  "or_empty_dict x = (if truthy x then x else JDict [])"

text \<open>
  \<open>isinstance(x, int)\<close>: the integer a decoded value is, if it is one. JSON's
  \<open>true\<close> and \<open>false\<close> are decoded to \<open>bool\<close>, which passes the test.
\<close>

fun instance_of_int :: "json \<Rightarrow> pyint option" where
  "instance_of_int (JInt i) = Some (PyInt i)"
| "instance_of_int (JBool b) = Some (PyBool b)"
| "instance_of_int _ = None"

definition rg_command :: "path \<Rightarrow> pystr \<Rightarrow> pystr list \<Rightarrow> pystr list" where
  "rg_command repo_root pattern exclude_globs =
     [ustr ''rg'', ustr ''--json'', ustr ''--smart-case'', ustr ''--text''] @
     concat (map (\<lambda>g. [ustr ''--glob'', g]) exclude_globs) @
     [pattern, repo_root]"

text \<open>
  One pass of the loop over the lines of the standard output, up to the
  \<open>hits.append\<close>: \<open>Inr None\<close> is a \<open>continue\<close>, \<open>Inr (Some hit)\<close> the pair to
  append, \<open>Inl\<close> an exception. \<open>.get\<close> on a value that is not a \<open>dict\<close> raises
  \<open>AttributeError\<close>, \<open>Path\<close> of a value that is not a \<open>str\<close> raises \<open>TypeError\<close>,
  and what \<open>json.loads\<close> raises is not caught.
\<close>

definition decode_line :: "platform \<Rightarrow> pystr \<Rightarrow> py_error + (path \<times> pyint) option" where
  "decode_line os ln =
     (if strip ln = [] then Inr None
      else case json_loads os ln of
        Inl failure \<Rightarrow> Inl (loads_error failure)
      | Inr (JDict obj) \<Rightarrow>
          if dict_get obj (ustr ''type'') \<noteq> JStr (ustr ''match'') then Inr None
          else
            (case or_empty_dict (dict_get obj (ustr ''data'')) of
               JDict data \<Rightarrow>
                 (case or_empty_dict (dict_get data (ustr ''path'')) of
                    JDict path_obj \<Rightarrow>
                      (let file_text = dict_get path_obj (ustr ''text'') in
                       if file_text = JNull then Inr None
                       else
                         (case instance_of_int (dict_get data (ustr ''line_number'')) of
                            None \<Rightarrow> Inr None
                          | Some line_no \<Rightarrow>
                              (case file_text of
                                 JStr t \<Rightarrow> Inr (Some (Path os t, line_no))
                               | _ \<Rightarrow> Inl TypeError)))
                  | _ \<Rightarrow> Inl AttributeError)
             | _ \<Rightarrow> Inl AttributeError)
      | Inr _ \<Rightarrow> Inl AttributeError)"

fun decode_lines ::
  "platform \<Rightarrow> int \<Rightarrow> (path \<times> pyint) list \<Rightarrow> pystr list \<Rightarrow> py_error + (path \<times> pyint) list"
where
  "decode_lines os max_hits hits [] = Inr hits"
| "decode_lines os max_hits hits (ln # lns) =
     (case decode_line os ln of
        Inl e \<Rightarrow> Inl e
      | Inr None \<Rightarrow> decode_lines os max_hits hits lns
      | Inr (Some hit) \<Rightarrow>
          (let hits' = hits @ [hit] in
           if int (length hits') \<ge> max_hits then Inr hits'
           else decode_lines os max_hits hits' lns))"

text \<open>\<open>x or ""\<close> for an optional text.\<close>

definition or_empty_str :: "pytext option \<Rightarrow> pystr" where
  "or_empty_str x = (case x of None \<Rightarrow> [] | Some s \<Rightarrow> chars s)"

definition run_rg ::
  "platform \<Rightarrow> path \<Rightarrow> pystr \<Rightarrow> int \<Rightarrow> pystr list \<Rightarrow> (path \<times> pyint) list outcome"
where
  "run_rg os repo_root pattern max_hits exclude_globs =
     (case path_exists os repo_root of
        Inl e \<Rightarrow> ([], Inl e)
      | Inr found \<Rightarrow>
          if \<not> found then
            ([], Inl (FileNotFoundError (ustr ''Repo root not found: '' @ repo_root)))
          else if strip pattern = [] then ([], Inr [])
          else
            (let cmd = rg_command repo_root pattern exclude_globs in
             case subprocess_run os cmd of
               Inl e \<Rightarrow> ([Run cmd], Inl e)
             | Inr proc \<Rightarrow>
                 (let out = or_empty_str (stdout proc) in
                  if strip out = [] then
                    (let err = strip (or_empty_str (stderr proc)) in
                     if err \<noteq> [] then ([Run cmd, Print err], Inr [])
                     else ([Run cmd], Inr []))
                  else ([Run cmd], decode_lines os max_hits [] (splitlines out)))))"

subsection \<open>\<open>search_and_slice\<close>\<close>

fun slice_matches ::
  "platform \<Rightarrow> int \<Rightarrow> Hit list \<Rightarrow> (path \<times> pyint) list \<Rightarrow> py_error + Hit list"
where
  "slice_matches os radius results [] = Inr results"
| "slice_matches os radius results ((file_path, line_no) # rest) =
     (case slice_window os file_path line_no radius of
        Inl e \<Rightarrow> Inl e
      | Inr w \<Rightarrow>
          if strip w = [] then slice_matches os radius results rest
          else slice_matches os radius
                 (results @ [\<lparr>hit_file = file_path, hit_line = line_no, hit_window = w\<rparr>]) rest)"

definition search_and_slice ::
  "platform \<Rightarrow> path \<Rightarrow> pystr \<Rightarrow> int \<Rightarrow> int \<Rightarrow> Hit list outcome"
where
  "search_and_slice os repo_root pattern max_hits radius =
     (case run_rg os repo_root pattern max_hits DEFAULT_EXCLUDE_GLOBS of
        (evs, Inl e) \<Rightarrow> (evs, Inl e)
      | (evs, Inr matches) \<Rightarrow>
          if length matches = 0 then (evs, Inr [])
          else (evs, slice_matches os radius [] matches))"

subsection \<open>\<open>main\<close>\<close>






section \<open>The decoder in the words of the specification\<close>






section \<open>A small platform for concrete runs\<close>

text \<open>
  A repository \<open>/repo\<close> holding \<open>a.txt\<close> with ten lines and the empty file
  \<open>empty.txt\<close>. Paths are written in normal form, so \<open>Path\<close> and \<open>resolve\<close>
  leave them as they are. A path of more than 4096 characters cannot be examined:
  \<open>exists()\<close> raises \<open>OSError\<close> with \<open>errno\<close> 36 (the name is too long), and no
  file has such a path. The limit on the digits of a converted integer is 4300.
\<close>

definition a_txt :: pystr where
  "a_txt = ustr ''one\<newline>two\<newline>three\<newline>four\<newline>five\<newline>six\<newline>seven\<newline>eight\<newline>nine\<newline>ten\<newline>''"

definition demo_files :: "(path \<times> pystr) list" where
  "demo_files = [(ustr ''/repo/a.txt'', a_txt), (ustr ''/repo/empty.txt'', [])]"

text \<open>A path of 5000 characters.\<close>

definition long_path :: path where
  "long_path = replicate 5000 0x78"

text \<open>
  \<open>json_text\<close> writes the double quotes of a JSON text as backquotes, which a literal
  can hold. \<open>demo_json\<close> lists what \<open>json.loads\<close> returns on the output lines used
  in the runs below; a text outside the list stands for one that is not JSON.
  In \<open>line_path_is_text\<close> the member \<open>path\<close> is a string, in
  \<open>line_text_is_number\<close> the member \<open>text\<close> is a number.
\<close>

definition json_text :: "string \<Rightarrow> pystr" where
  "json_text s = map (\<lambda>c. if c = CHR 0x60 then 0x22 else of_char c) s"

definition line_begin :: pystr where
  "line_begin = json_text ''{`type`:`begin`,`data`:{`path`:{`text`:`/repo/a.txt`}}}''"

definition line_match5 :: pystr where
  "line_match5 =
     json_text ''{`type`:`match`,`data`:{`path`:{`text`:`/repo/a.txt`},`line_number`:5}}''"

definition line_match7 :: pystr where
  "line_match7 =
     json_text ''{`type`:`match`,`data`:{`path`:{`text`:`/repo/a.txt`},`line_number`:7}}''"

definition line_gone3 :: pystr where
  "line_gone3 =
     json_text ''{`type`:`match`,`data`:{`path`:{`text`:`/repo/gone.txt`},`line_number`:3}}''"

definition line_no_path :: pystr where
  "line_no_path = json_text ''{`type`:`match`,`data`:{`line_number`:5}}''"

definition line_float :: pystr where
  "line_float =
     json_text ''{`type`:`match`,`data`:{`path`:{`text`:`/repo/a.txt`},`line_number`:5.5}}''"

definition line_path_is_text :: pystr where
  "line_path_is_text =
     json_text ''{`type`:`match`,`data`:{`path`:`/repo/a.txt`,`line_number`:5}}''"

definition line_text_is_number :: pystr where
  "line_text_is_number =
     json_text ''{`type`:`match`,`data`:{`path`:{`text`:5},`line_number`:5}}''"

definition line_malformed :: pystr where
  "line_malformed = json_text ''{`type`:`match`''"

definition match_record :: "pystr \<Rightarrow> json \<Rightarrow> json" where
  "match_record t n =
     JDict [(ustr ''type'', JStr (ustr ''match'')),
            (ustr ''data'', JDict [(ustr ''path'', JDict [(ustr ''text'', JStr t)]),
                                   (ustr ''line_number'', n)])]"

definition demo_json :: "(pystr \<times> json) list" where
  "demo_json =
     [(line_begin,
       JDict [(ustr ''type'', JStr (ustr ''begin'')),
              (ustr ''data'', JDict [(ustr ''path'',
                 JDict [(ustr ''text'', JStr (ustr ''/repo/a.txt''))])])]),
      (line_match5, match_record (ustr ''/repo/a.txt'') (JInt 5)),
      (line_match7, match_record (ustr ''/repo/a.txt'') (JInt 7)),
      (line_gone3, match_record (ustr ''/repo/gone.txt'') (JInt 3)),
      (line_no_path,
       JDict [(ustr ''type'', JStr (ustr ''match'')),
              (ustr ''data'', JDict [(ustr ''line_number'', JInt 5)])]),
      (line_float, match_record (ustr ''/repo/a.txt'') (JFloat (Finite 11 (- 1)))),
      (line_path_is_text,
       JDict [(ustr ''type'', JStr (ustr ''match'')),
              (ustr ''data'', JDict [(ustr ''path'', JStr (ustr ''/repo/a.txt'')),
                                     (ustr ''line_number'', JInt 5)])]),
      (line_text_is_number,
       JDict [(ustr ''type'', JStr (ustr ''match'')),
              (ustr ''data'', JDict [(ustr ''path'', JDict [(ustr ''text'', JInt 5)]),
                                     (ustr ''line_number'', JInt 5)])])]"

text \<open>The platform, given what the search process writes.\<close>

definition demo :: "pystr \<Rightarrow> pystr \<Rightarrow> platform" where
  "demo out err =
     \<lparr>Path = (\<lambda>t. t),
      resolve = (\<lambda>p. Inr p),
      path_exists = (\<lambda>p. if 4096 < length p then Inl (OSError 36)
                         else Inr (p = ustr ''/repo'' \<or> map_of demo_files p \<noteq> None)),
      read_text = (\<lambda>p. case map_of demo_files p of
                           Some t \<Rightarrow> Inr (mk_text t)
                         | None \<Rightarrow> if p = ustr ''/repo'' then Inl IsADirectoryError
                                    else Inl (FileNotFoundError p)),
      subprocess_run = (\<lambda>cmd. Inr \<lparr>stdout = Some (mk_text out), stderr = Some (mk_text err)\<rparr>),
      json_loads = (\<lambda>ln. case map_of demo_json ln of Some j \<Rightarrow> Inr j | None \<Rightarrow> Inl NotJSON),
      int_of_str = map_of [(ustr ''1'', 1), (ustr ''2'', 2), (ustr ''0'', 0)],
      int_max_str_digits = 4300\<rparr>"


section \<open>Properties\<close>

subsection \<open>Strings, slices and the header\<close>

lemma strip_eq_Nil_iff: "strip s = [] \<longleftrightarrow> (\<forall>c\<in>set s. is_space c)"
proof
  assume "strip s = []"
  then have all: "\<forall>c\<in>set (dropWhile is_space s). is_space c"
    by (simp add: strip_def dropWhile_eq_Nil_conv)
  have "dropWhile is_space s = []"
  proof (rule ccontr)
    assume ne: "dropWhile is_space s \<noteq> []"
    then have "\<not> is_space (hd (dropWhile is_space s))"
      by (rule hd_dropWhile)
    moreover have "hd (dropWhile is_space s) \<in> set (dropWhile is_space s)"
      using ne by simp
    ultimately show False
      using all by blast
  qed
  then show "\<forall>c\<in>set s. is_space c"
    by (simp add: dropWhile_eq_Nil_conv)
next
  assume "\<forall>c\<in>set s. is_space c"
  then have "dropWhile is_space s = []"
    by (simp add: dropWhile_eq_Nil_conv)
  then show "strip s = []"
    by (simp add: strip_def del: dropWhile_eq_Nil_conv)
qed

lemma splitlines_from_eq_Nil_iff: "splitlines_from cur s = [] \<longleftrightarrow> cur = [] \<and> s = []"
  by (induction cur s rule: splitlines_from.induct) auto

lemma splitlines_eq_Nil_iff: "splitlines s = [] \<longleftrightarrow> s = []"
  by (simp add: splitlines_def splitlines_from_eq_Nil_iff)

lemma py_slice_inside:
  assumes "0 \<le> a" and "a \<le> b" and "b \<le> int (length xs)"
  shows "py_slice xs a b = take (nat (b - a)) (drop (nat a) xs)"
proof -
  have "slice_index (length xs) a = nat a" "slice_index (length xs) b = nat b"
    using assms by (auto simp: slice_index_def)
  moreover have "nat b - nat a = nat (b - a)"
    using assms by linarith
  ultimately show ?thesis
    by (simp add: py_slice_def)
qed

lemma py_slice_inverted:
  assumes "0 \<le> b" and "b \<le> a"
  shows "py_slice xs a b = []"
  using assms by (auto simp: py_slice_def slice_index_def Let_def)

lemma window_header_not_blank: "strip (window_header p c s e @ rest) \<noteq> []"
proof -
  have "(0x3A::nat) \<in> set (window_header p c s e @ rest)"
    by (simp add: window_header_def ustr_def)
  moreover have "\<not> is_space 0x3A"
    by (simp add: is_space_def)
  ultimately show ?thesis
    using strip_eq_Nil_iff by blast
qed

lemma chars_mk_text: "length s \<le> 2 ^ 63 - 1 \<Longrightarrow> chars (mk_text s) = s"
  by (simp add: mk_text_def Abs_pytext_inverse)

lemma length_chars: "length (chars t) \<le> 2 ^ 63 - 1"
  using chars [of t] by simp

lemma length_splitlines_from: "length (splitlines_from cur s) \<le> length s + (if cur = [] then 0 else 1)"
  by (induction cur s rule: splitlines_from.induct) auto

lemma length_splitlines: "length (splitlines s) \<le> length s"
  using length_splitlines_from [of "[]" s] by (simp add: splitlines_def)

lemma length_str_nat_le: "0 < k \<Longrightarrow> n < 10 ^ k \<Longrightarrow> length (str_nat n) \<le> k"
proof (induction n arbitrary: k rule: str_nat.induct)
  case (1 n)
  show ?case
  proof (cases "n < 10")
    case True
    with "1.prems" show ?thesis
      by (subst str_nat.simps) simp
  next
    case False
    with "1.prems" obtain k' where k: "k = Suc k'" "0 < k'"
      by (cases k; cases "k - 1") auto
    with "1.prems" have "n div 10 < 10 ^ k'"
      by (simp add: less_mult_imp_div_less mult.commute)
    from "1.IH" [OF False k(2) this] False k show ?thesis
      by (subst str_nat.simps) simp
  qed
qed

lemma length_str_nat_gt: "10 ^ k \<le> n \<Longrightarrow> k < length (str_nat n)"
proof (induction n arbitrary: k rule: str_nat.induct)
  case (1 n)
  show ?case
  proof (cases "n < 10")
    case True
    have "k = 0"
    proof (rule ccontr)
      assume "k \<noteq> 0"
      then have "(10::nat) ^ 1 \<le> 10 ^ k"
        by (intro power_increasing) simp_all
      then have "(10::nat) \<le> 10 ^ k"
        by (simp only: power_one_right)
      with "1.prems" True show False
        by linarith
    qed
    with True show ?thesis
      by (subst str_nat.simps) simp
  next
    case False
    show ?thesis
    proof (cases k)
      case 0
      with False show ?thesis
        by (subst str_nat.simps) simp
    next
      case (Suc k')
      with "1.prems" have "10 ^ k' \<le> n div 10"
        by (simp add: less_eq_div_iff_mult_less_eq mult.commute)
      from "1.IH" [OF False this] False Suc show ?thesis
        by (subst str_nat.simps) simp
    qed
  qed
qed

lemma small_not_over_digit_limit: "\<bar>i\<bar> \<le> 2 ^ 63 - 1 \<Longrightarrow> \<not> over_digit_limit m i"
proof -
  assume "\<bar>i\<bar> \<le> 2 ^ 63 - 1"
  then have "nat \<bar>i\<bar> < 10 ^ 19"
    by simp
  then have "length (str_nat (nat \<bar>i\<bar>)) \<le> 19"
    by (intro length_str_nat_le) simp_all
  then show ?thesis
    by (simp add: over_digit_limit_def)
qed

lemma slice_window_readable:
  assumes "path_exists os p = Inr True" and "read_text os p = Inr text"
    and "splitlines (chars text) \<noteq> []" and "1 \<le> int_val c"
  shows "slice_window os p c r =
           (case format_header os p c (max (int_val c - 1 - r) 0)
                   (min (int_val c + r) (int (length (splitlines (chars text))))) of
              Inl e \<Rightarrow> Inl e
            | Inr header \<Rightarrow>
                Inr (header @ [0x0A] @
                     join [0x0A] (py_slice (splitlines (chars text)) (max (int_val c - 1 - r) 0)
                       (min (int_val c + r) (int (length (splitlines (chars text))))))))"
proof -
  have idx: "max (int_val c - 1) 0 = int_val c - 1"
    using assms(4) by simp
  have "int_val c - 1 + r + 1 = int_val c + r" by simp
  then show ?thesis
    using assms by (simp add: slice_window_def Let_def idx split: sum.split)
qed

lemma format_header_Inr:
  assumes "\<not> pyint_over_digit_limit (int_max_str_digits os) c"
    and "\<not> over_digit_limit (int_max_str_digits os) (start + 1)"
    and "\<not> over_digit_limit (int_max_str_digits os) stop"
  shows "format_header os p c start stop = Inr (window_header p c start stop)"
  using assms by (simp add: format_header_def)

lemma pyint_small_not_over_digit_limit:
  "\<bar>int_val c\<bar> \<le> 2 ^ 63 - 1 \<Longrightarrow> \<not> pyint_over_digit_limit m c"
  by (cases c) (simp_all add: small_not_over_digit_limit)

lemma splitlines_a_txt:
  "splitlines a_txt =
     [ustr ''one'', ustr ''two'', ustr ''three'', ustr ''four'', ustr ''five'',
      ustr ''six'', ustr ''seven'', ustr ''eight'', ustr ''nine'', ustr ''ten'']"
  by (simp add: a_txt_def ustr_def splitlines_def is_linebreak_def)

lemma demo_files_facts:
  "path_exists (demo out err) (ustr ''/repo/a.txt'') = Inr True"
  "read_text (demo out err) (ustr ''/repo/a.txt'') = Inr (mk_text a_txt)"
  "chars (mk_text a_txt) = a_txt"
  "path_exists (demo out err) (ustr ''/repo/empty.txt'') = Inr True"
  "read_text (demo out err) (ustr ''/repo/empty.txt'') = Inr (mk_text [])"
  "chars (mk_text []) = []"
  "path_exists (demo out err) (ustr ''/repo/gone.txt'') = Inr False"
  "int_max_str_digits (demo out err) = 4300"
  by (simp_all add: demo_def demo_files_def chars_mk_text a_txt_def ustr_def)

lemma long_path_facts:
  "length long_path = 5000"
  "map_of demo_files long_path = None"
  "path_exists (demo out err) long_path = Inl (OSError 36)"
proof -
  show len: "length long_path = 5000"
    by (simp only: long_path_def length_replicate)
  have "length (ustr ''/repo/a.txt'') \<noteq> length long_path"
    and "length (ustr ''/repo/empty.txt'') \<noteq> length long_path"
    by (simp_all add: len ustr_def)
  then have "ustr ''/repo/a.txt'' \<noteq> long_path" and "ustr ''/repo/empty.txt'' \<noteq> long_path"
    by auto
  then show "map_of demo_files long_path = None"
    by (simp add: demo_files_def)
  show "path_exists (demo out err) long_path = Inl (OSError 36)"
    by (simp add: demo_def len)
qed

subsection \<open>C8: when \<open>slice_window\<close> returns the empty string\<close>

text \<open>
  C8 as stated fails. No file has the path of 5000 characters, and \<open>exists()\<close>
  raises on it instead of returning \<open>False\<close>; \<open>slice_window\<close> makes that call first,
  so it raises too, for a positive center line and for the center line 0.
\<close>

theorem slice_window_raises_on_long_path:
  "map_of demo_files long_path = None \<and>
   path_exists (demo [] []) long_path = Inl (OSError 36) \<and>
   slice_window (demo [] []) long_path (PyInt 5) 2 = Inl (OSError 36) \<and>
   slice_window (demo [] []) long_path (PyInt 0) 2 = Inl (OSError 36)"
  by (simp add: long_path_facts slice_window_def)

text \<open>
  C8, amended. \<open>slice_window\<close> returns the empty string when \<open>exists()\<close> returns
  \<open>False\<close> for the file, for every center line and radius; when \<open>exists()\<close> returns
  \<open>True\<close> and the center line is zero or negative; and when \<open>exists()\<close> returns
  \<open>True\<close> and the text read from the file splits into no line at all. When
  \<open>exists()\<close> raises, \<open>slice_window\<close> raises the same exception.
\<close>

theorem slice_window_empty_cases:
  "(path_exists os p = Inr False \<longrightarrow> slice_window os p c r = Inr []) \<and>
   (path_exists os p = Inr True \<and> int_val c \<le> 0 \<longrightarrow> slice_window os p c r = Inr []) \<and>
   (path_exists os p = Inr True \<and> read_text os p = Inr text \<and> splitlines (chars text) = [] \<longrightarrow>
      slice_window os p c r = Inr []) \<and>
   (path_exists os p = Inl e \<longrightarrow> slice_window os p c r = Inl e)"
  by (simp add: slice_window_def)

theorem slice_window_empty_cases_witness:
  "path_exists (demo [] []) (ustr ''/repo/gone.txt'') = Inr False \<and>
   slice_window (demo [] []) (ustr ''/repo/gone.txt'') (PyInt 5) 2 = Inr [] \<and>
   path_exists (demo [] []) (ustr ''/repo/a.txt'') = Inr True \<and>
   slice_window (demo [] []) (ustr ''/repo/a.txt'') (PyInt 0) 2 = Inr [] \<and>
   path_exists (demo [] []) (ustr ''/repo/empty.txt'') = Inr True \<and>
   read_text (demo [] []) (ustr ''/repo/empty.txt'') = Inr (mk_text []) \<and>
   splitlines (chars (mk_text [])) = [] \<and>
   slice_window (demo [] []) (ustr ''/repo/empty.txt'') (PyInt 1) 2 = Inr [] \<and>
   path_exists (demo [] []) long_path = Inl (OSError 36) \<and>
   slice_window (demo [] []) long_path (PyInt 1) 2 = Inl (OSError 36)"
proof -
  let ?os = "demo [] []"
  have gone: "path_exists ?os (ustr ''/repo/gone.txt'') = Inr False"
    and a: "path_exists ?os (ustr ''/repo/a.txt'') = Inr True"
    and e: "path_exists ?os (ustr ''/repo/empty.txt'') = Inr True"
    and rd: "read_text ?os (ustr ''/repo/empty.txt'') = Inr (mk_text [])"
    by (rule demo_files_facts)+
  have sp: "splitlines (chars (mk_text [])) = []"
    by (simp add: demo_files_facts splitlines_def)
  have long: "path_exists ?os long_path = Inl (OSError 36)"
    by (rule long_path_facts)
  have zero: "int_val (PyInt 0) \<le> 0"
    by simp
  note t = slice_window_empty_cases
  have "slice_window ?os (ustr ''/repo/gone.txt'') (PyInt 5) 2 = Inr []"
    using t [where os = ?os and p = "ustr ''/repo/gone.txt''", THEN conjunct1] gone by blast
  moreover have "slice_window ?os (ustr ''/repo/a.txt'') (PyInt 0) 2 = Inr []"
    using t [where os = ?os and p = "ustr ''/repo/a.txt''" and c = "PyInt 0",
        THEN conjunct2, THEN conjunct1] a zero by blast
  moreover have "slice_window ?os (ustr ''/repo/empty.txt'') (PyInt 1) 2 = Inr []"
    using t [of ?os "ustr ''/repo/empty.txt''" _ _ "mk_text []",
        THEN conjunct2, THEN conjunct2, THEN conjunct1] e rd sp by blast
  moreover have "slice_window ?os long_path (PyInt 1) 2 = Inl (OSError 36)"
    using t [where os = ?os and p = long_path and e = "OSError 36",
        THEN conjunct2, THEN conjunct2, THEN conjunct2] long by blast
  ultimately show ?thesis
    using gone a e rd sp long by blast
qed

subsection \<open>C2: the window of a valid center line\<close>

text \<open>
  C2. For an existing file whose text has N lines, a center line L with 1 \<le> L \<le> N and
  a radius R \<ge> 0, \<open>slice_window\<close> returns the header for the range
  \<open>start + 1\<close> to \<open>end\<close>, where \<open>start = max (L - 1 - R) 0\<close> and
  \<open>end = min (L - 1 + R + 1) N\<close>, then a line feed, then the lines
  \<open>start + 1\<close> to \<open>end\<close> of the file joined by line feeds: \<open>end - start\<close>
  lines, at least one. The three numbers of the header are at most N, which is at
  most the length of the text, so their conversion stays within the digit limit.
\<close>

theorem slice_window_range:
  assumes "path_exists os p = Inr True" and "read_text os p = Inr text"
    and "1 \<le> int_val c" and "int_val c \<le> int (length (splitlines (chars text)))" and "0 \<le> r"
  shows "let lines = splitlines (chars text);
             start = max (int_val c - 1 - r) 0;
             end = min (int_val c - 1 + r + 1) (int (length lines));
             body = take (nat (end - start)) (drop (nat start) lines)
         in slice_window os p c r = Inr (window_header p c start end @ [0x0A] @ join [0x0A] body) \<and>
            0 \<le> start \<and> start < end \<and> end \<le> int (length lines) \<and>
            int (length body) = end - start \<and>
            (\<forall>i < length body. body ! i = lines ! (nat start + i))"
proof -
  define lines where "lines = splitlines (chars text)"
  define start where "start = max (int_val c - 1 - r) 0"
  define stop where "stop = min (int_val c + r) (int (length lines))"
  define body where "body = take (nat (stop - start)) (drop (nat start) lines)"
  have ne: "splitlines (chars text) \<noteq> []"
    using assms(3,4) by auto
  have bounds: "0 \<le> start" "start < stop" "stop \<le> int (length lines)"
    using assms(3,4,5) by (auto simp: start_def stop_def lines_def)
  have "length lines \<le> length (chars text)"
    unfolding lines_def by (rule length_splitlines)
  also have "\<dots> \<le> 2 ^ 63 - 1"
    by (rule length_chars)
  finally have N: "int (length lines) \<le> 2 ^ 63 - 1"
    by simp
  have "\<bar>int_val c\<bar> \<le> 2 ^ 63 - 1" "\<bar>start + 1\<bar> \<le> 2 ^ 63 - 1" "\<bar>stop\<bar> \<le> 2 ^ 63 - 1"
    using assms(3,4) bounds N by (simp_all add: lines_def)
  then have fmt: "format_header os p c start stop = Inr (window_header p c start stop)"
    by (intro format_header_Inr pyint_small_not_over_digit_limit small_not_over_digit_limit)
  have sl: "py_slice lines start stop = body"
    using bounds by (simp add: body_def py_slice_inside)
  have res: "slice_window os p c r =
               Inr (window_header p c start stop @ [0x0A] @ join [0x0A] body)"
    using slice_window_readable [OF assms(1,2) ne assms(3), of r] sl fmt
    by (simp add: start_def stop_def lines_def)
  have len: "int (length body) = stop - start"
    using bounds by (simp add: body_def)
  have "nat start \<le> length lines"
    using bounds by linarith
  then have nth: "\<forall>i < length body. body ! i = lines ! (nat start + i)"
    by (simp add: body_def)
  have e: "int_val c - 1 + r + 1 = int_val c + r" by simp
  show ?thesis
    unfolding Let_def e
    using res bounds len nth
    unfolding body_def stop_def start_def lines_def
    by blast
qed

theorem slice_window_range_witness:
  "path_exists (demo [] []) (ustr ''/repo/a.txt'') = Inr True \<and>
   read_text (demo [] []) (ustr ''/repo/a.txt'') = Inr (mk_text a_txt) \<and>
   length (splitlines (chars (mk_text a_txt))) = 10 \<and>
   slice_window (demo [] []) (ustr ''/repo/a.txt'') (PyInt 5) 2 =
     Inr (ustr ''/repo/a.txt:5 (lines 3-7)\<newline>three\<newline>four\<newline>five\<newline>six\<newline>seven'') \<and>
   slice_window (demo [] []) (ustr ''/repo/a.txt'') (PyInt 1) 60 =
     Inr (ustr ''/repo/a.txt:1 (lines 1-10)\<newline>'' @ join [0x0A] (splitlines a_txt))"
proof -
  have ex: "path_exists (demo [] []) (ustr ''/repo/a.txt'') = Inr True"
    by (rule demo_files_facts)
  have rd: "read_text (demo [] []) (ustr ''/repo/a.txt'') = Inr (mk_text a_txt)"
    by (rule demo_files_facts)
  have len: "length (splitlines (chars (mk_text a_txt))) = 10"
    by (simp add: demo_files_facts splitlines_a_txt)
  have len_a: "length (splitlines a_txt) = 10"
    by (simp add: splitlines_a_txt)
  have c5: "1 \<le> int_val (PyInt 5)"
    "int_val (PyInt 5) \<le> int (length (splitlines (chars (mk_text a_txt))))"
    by (simp_all add: len)
  have c1: "1 \<le> int_val (PyInt 1)"
    "int_val (PyInt 1) \<le> int (length (splitlines (chars (mk_text a_txt))))"
    by (simp_all add: len)
  have r2: "(0::int) \<le> 2" and r60: "(0::int) \<le> 60"
    by simp_all
  have w5: "slice_window (demo [] []) (ustr ''/repo/a.txt'') (PyInt 5) 2 =
     Inr (ustr ''/repo/a.txt:5 (lines 3-7)\<newline>three\<newline>four\<newline>five\<newline>six\<newline>seven'')"
    using slice_window_range [OF ex rd c5 r2]
    by (simp add: Let_def demo_files_facts splitlines_a_txt window_header_def str_int_def
        str_nat.simps ustr_def)
  have w1: "slice_window (demo [] []) (ustr ''/repo/a.txt'') (PyInt 1) 60 =
     Inr (ustr ''/repo/a.txt:1 (lines 1-10)\<newline>'' @ join [0x0A] (splitlines a_txt))"
    using slice_window_range [OF ex rd c1 r60]
    by (simp add: Let_def len_a demo_files_facts(3) window_header_def str_int_def
        str_nat.simps ustr_def)
  show ?thesis
    using ex rd len w5 w1 by simp
qed

subsection \<open>C10: a readable file and a positive center line\<close>

lemma over_digit_limit_big:
  assumes "10 ^ k \<le> \<bar>i\<bar>" and "640 \<le> k" and "0 < m" and "m \<le> k"
  shows "over_digit_limit m i"
proof -
  have "(10::nat) ^ k \<le> nat \<bar>i\<bar>"
    using assms(1) by (simp add: nat_le_iff of_nat_power)
  then have "k < length (str_nat (nat \<bar>i\<bar>))"
    by (rule length_str_nat_gt)
  with assms(2-4) show ?thesis
    by (simp add: over_digit_limit_def)
qed

lemma slice_window_huge_negative_radius:
  assumes "path_exists os p = Inr True" and "read_text os p = Inr text"
    and "splitlines (chars text) \<noteq> []" and "1 \<le> int_val c"
    and "r \<le> - (10 ^ k)" and "640 \<le> k"
    and "0 < int_max_str_digits os" and "int_max_str_digits os \<le> k"
  shows "slice_window os p c r = Inl ValueError"
proof -
  have pos: "(0::int) < 10 ^ k"
    by (rule zero_less_power) simp
  have "max (int_val c - 1 - r) 0 + 1 \<ge> 10 ^ k"
    using assms(4,5) pos by linarith
  moreover have "0 \<le> max (int_val c - 1 - r) 0 + 1"
    by linarith
  ultimately have "10 ^ k \<le> \<bar>max (int_val c - 1 - r) 0 + 1\<bar>"
    by linarith
  then have "over_digit_limit (int_max_str_digits os) (max (int_val c - 1 - r) 0 + 1)"
    using assms(6-8) by (rule over_digit_limit_big)
  then show ?thesis
    by (simp add: slice_window_readable [OF assms(1-4)] format_header_def)
qed

text \<open>
  C10 as stated fails. The file has ten lines, the center line is 1, and the radius is
  \<open>- (10 ^ 4300)\<close>: \<open>start + 1\<close> has 4301 digits, the f-string of the header raises
  \<open>ValueError\<close> under the limit of 4300 digits, and \<open>slice_window\<close> returns no text.
\<close>

theorem slice_window_raises_on_huge_radius:
  "slice_window (demo [] []) (ustr ''/repo/a.txt'') (PyInt 1) (- (10 ^ 4300)) = Inl ValueError"
proof (rule slice_window_huge_negative_radius)
  show "path_exists (demo [] []) (ustr ''/repo/a.txt'') = Inr True"
    by (rule demo_files_facts)
  show "read_text (demo [] []) (ustr ''/repo/a.txt'') = Inr (mk_text a_txt)"
    by (rule demo_files_facts)
  show "splitlines (chars (mk_text a_txt)) \<noteq> []"
    by (simp add: demo_files_facts splitlines_a_txt)
  show "1 \<le> int_val (PyInt 1)"
    by simp
  show "- (10 ^ 4300) \<le> - ((10::int) ^ 4300)"
    by (rule order_refl)
  show "(640::nat) \<le> 4300"
    by simp
  show "0 < int_max_str_digits (demo [] [])" and "int_max_str_digits (demo [] []) \<le> 4300"
    by (simp_all add: demo_files_facts)
qed

text \<open>
  C10, amended. For an existing file whose text splits into at least one line, a
  center line of at least 1 and a radius (negative ones too) for which the three
  numbers of the header (the center line, \<open>start + 1\<close> and \<open>end\<close>) are within the
  interpreter's limit on the digits of a converted integer, \<open>slice_window\<close> returns a
  text that begins with the header line; it is neither empty nor blank, so the loop of
  \<open>search_and_slice\<close> appends a \<open>Hit\<close> for it. When the radius is negative or the
  center line lies at least a radius beyond the last line, the range in the header is
  inverted (\<open>start + 1 > end\<close>), and the body is empty as long as \<open>end\<close> is not
  negative. When one of the three numbers is over the limit, \<open>slice_window\<close> raises
  \<open>ValueError\<close>.
\<close>

theorem slice_window_never_blank:
  assumes "path_exists os p = Inr True" and "read_text os p = Inr text"
    and "splitlines (chars text) \<noteq> []" and "1 \<le> int_val c"
  shows "let lines = splitlines (chars text);
             start = max (int_val c - 1 - r) 0;
             end = min (int_val c - 1 + r + 1) (int (length lines));
             body = py_slice lines start end;
             w = window_header p c start end @ [0x0A] @ join [0x0A] body
         in if pyint_over_digit_limit (int_max_str_digits os) c \<or>
               over_digit_limit (int_max_str_digits os) (start + 1) \<or>
               over_digit_limit (int_max_str_digits os) end
            then slice_window os p c r = Inl ValueError
            else
              slice_window os p c r = Inr w \<and> w \<noteq> [] \<and> strip w \<noteq> [] \<and>
              slice_matches os r results ((p, c) # rest) =
                slice_matches os r
                  (results @ [\<lparr>hit_file = p, hit_line = c, hit_window = w\<rparr>]) rest \<and>
              (r < 0 \<or> int (length lines) \<le> int_val c - 1 - r \<longrightarrow> end < start + 1) \<and>
              (0 \<le> int_val c + r \<and> (r < 0 \<or> int (length lines) \<le> int_val c - 1 - r)
                 \<longrightarrow> body = [])"
proof -
  define lines where "lines = splitlines (chars text)"
  define start where "start = max (int_val c - 1 - r) 0"
  define stop where "stop = min (int_val c + r) (int (length lines))"
  define body where "body = py_slice lines start stop"
  define w where "w = window_header p c start stop @ [0x0A] @ join [0x0A] body"
  define over where "over \<longleftrightarrow> pyint_over_digit_limit (int_max_str_digits os) c \<or>
               over_digit_limit (int_max_str_digits os) (start + 1) \<or>
               over_digit_limit (int_max_str_digits os) stop"
  note readable = slice_window_readable [OF assms, of r]
  have raise: "slice_window os p c r = Inl ValueError" if over
    using that readable
    by (simp add: format_header_def over_def start_def stop_def lines_def)
  have res: "slice_window os p c r = Inr w" if "\<not> over"
    using that readable
    by (simp add: format_header_def over_def w_def body_def start_def stop_def lines_def)
  have nb: "strip w \<noteq> []"
    unfolding w_def by (rule window_header_not_blank)
  then have ne: "w \<noteq> []"
    by (auto simp: strip_def)
  have step: "slice_matches os r results ((p, c) # rest) =
                slice_matches os r
                  (results @ [\<lparr>hit_file = p, hit_line = c, hit_window = w\<rparr>]) rest"
    if "\<not> over"
    using res [OF that] nb by simp
  have inv: "r < 0 \<or> int (length lines) \<le> int_val c - 1 - r \<longrightarrow> stop < start + 1"
    using assms(4) by (auto simp: start_def stop_def)
  have emp: "0 \<le> int_val c + r \<and> (r < 0 \<or> int (length lines) \<le> int_val c - 1 - r)
               \<longrightarrow> body = []"
  proof
    assume a: "0 \<le> int_val c + r \<and> (r < 0 \<or> int (length lines) \<le> int_val c - 1 - r)"
    then have "0 \<le> stop" "stop \<le> start"
      using assms(4) by (auto simp: start_def stop_def)
    then show "body = []"
      unfolding body_def by (rule py_slice_inverted)
  qed
  have e: "int_val c - 1 + r + 1 = int_val c + r" by simp
  have "if over then slice_window os p c r = Inl ValueError
        else
          slice_window os p c r = Inr w \<and> w \<noteq> [] \<and> strip w \<noteq> [] \<and>
          slice_matches os r results ((p, c) # rest) =
            slice_matches os r
              (results @ [\<lparr>hit_file = p, hit_line = c, hit_window = w\<rparr>]) rest \<and>
          (r < 0 \<or> int (length lines) \<le> int_val c - 1 - r \<longrightarrow> stop < start + 1) \<and>
          (0 \<le> int_val c + r \<and> (r < 0 \<or> int (length lines) \<le> int_val c - 1 - r)
             \<longrightarrow> body = [])"
    using raise res ne nb step inv emp by (cases over) (simp_all del: slice_matches.simps)
  then show ?thesis
    unfolding Let_def e over_def w_def body_def stop_def start_def lines_def .
qed

theorem slice_window_never_blank_witness:
  "path_exists (demo [] []) (ustr ''/repo/a.txt'') = Inr True \<and>
   read_text (demo [] []) (ustr ''/repo/a.txt'') = Inr (mk_text a_txt) \<and>
   length (splitlines (chars (mk_text a_txt))) = 10 \<and>
   slice_window (demo [] []) (ustr ''/repo/a.txt'') (PyInt 20) 2 =
     Inr (ustr ''/repo/a.txt:20 (lines 18-10)\<newline>'') \<and>
   slice_matches (demo [] []) 2 [] [(ustr ''/repo/a.txt'', PyInt 20)] =
     Inr [\<lparr>hit_file = ustr ''/repo/a.txt'', hit_line = PyInt 20,
           hit_window = ustr ''/repo/a.txt:20 (lines 18-10)\<newline>''\<rparr>] \<and>
   slice_window (demo [] []) (ustr ''/repo/a.txt'') (PyInt 5) (- 1) =
     Inr (ustr ''/repo/a.txt:5 (lines 6-4)\<newline>'') \<and>
   slice_window (demo [] []) (ustr ''/repo/a.txt'') (PyInt 1) (- 4) =
     Inr (ustr ''/repo/a.txt:1 (lines 5--3)\<newline>five\<newline>six\<newline>seven'')"
proof -
  have ex: "path_exists (demo [] []) (ustr ''/repo/a.txt'') = Inr True"
    by (rule demo_files_facts)
  have rd: "read_text (demo [] []) (ustr ''/repo/a.txt'') = Inr (mk_text a_txt)"
    by (rule demo_files_facts)
  have len: "length (splitlines (chars (mk_text a_txt))) = 10"
    by (simp add: demo_files_facts splitlines_a_txt)
  have ne: "splitlines (chars (mk_text a_txt)) \<noteq> []"
    by (simp add: demo_files_facts splitlines_a_txt)
  have c20: "1 \<le> int_val (PyInt 20)" and c5: "1 \<le> int_val (PyInt 5)"
    and c1: "1 \<le> int_val (PyInt 1)"
    by simp_all
  note evaluate = demo_files_facts splitlines_a_txt window_header_def str_int_def
    str_nat.simps ustr_def py_slice_def slice_index_def small_not_over_digit_limit
  note t20 = slice_window_never_blank [OF ex rd ne c20, of 2 "[]" "[]", unfolded Let_def]
  note t5 = slice_window_never_blank [OF ex rd ne c5, of "- 1" "[]" "[]", unfolded Let_def]
  note t1 = slice_window_never_blank [OF ex rd ne c1, of "- 4" "[]" "[]", unfolded Let_def]
  have w20: "slice_window (demo [] []) (ustr ''/repo/a.txt'') (PyInt 20) 2 =
       Inr (ustr ''/repo/a.txt:20 (lines 18-10)\<newline>'')"
    using t20 by (simp add: evaluate del: slice_matches.simps)
  have m20: "slice_matches (demo [] []) 2 [] [(ustr ''/repo/a.txt'', PyInt 20)] =
       Inr [\<lparr>hit_file = ustr ''/repo/a.txt'', hit_line = PyInt 20,
             hit_window = ustr ''/repo/a.txt:20 (lines 18-10)\<newline>''\<rparr>]"
    using t20 by (simp add: evaluate del: slice_matches.simps(2))
  have w5: "slice_window (demo [] []) (ustr ''/repo/a.txt'') (PyInt 5) (- 1) =
       Inr (ustr ''/repo/a.txt:5 (lines 6-4)\<newline>'')"
    using t5 by (simp add: evaluate del: slice_matches.simps)
  have w1: "slice_window (demo [] []) (ustr ''/repo/a.txt'') (PyInt 1) (- 4) =
       Inr (ustr ''/repo/a.txt:1 (lines 5--3)\<newline>five\<newline>six\<newline>seven'')"
    using t1 by (simp add: evaluate del: slice_matches.simps)
  show ?thesis
    using ex rd len w20 m20 w5 w1 by simp
qed

subsection \<open>C6: \<open>search_and_slice\<close> keeps the matches with a window, in order\<close>

lemma slice_matches_Inr:
  "slice_matches os r results ms = Inr hits \<Longrightarrow>
     \<exists>new. hits = results @ new \<and>
       map (\<lambda>h. (hit_file h, hit_line h)) new =
         filter (\<lambda>m. \<exists>w. slice_window os (fst m) (snd m) r = Inr w \<and> strip w \<noteq> []) ms \<and>
       (\<forall>h\<in>set new. slice_window os (hit_file h) (hit_line h) r = Inr (hit_window h) \<and>
          strip (hit_window h) \<noteq> [])"
proof (induction os r results ms arbitrary: hits rule: slice_matches.induct)
  case (1 os radius results)
  then show ?case by simp
next
  case (2 os radius results file_path line_no rest)
  from "2.prems" obtain w where w: "slice_window os file_path line_no radius = Inr w"
    by (auto split: sum.splits)
  show ?case
  proof (cases "strip w = []")
    case True
    with w "2.prems" have "slice_matches os radius results rest = Inr hits"
      by simp
    from "2.IH"(1) [OF w True this] w True show ?thesis
      by auto
  next
    case False
    let ?h = "\<lparr>hit_file = file_path, hit_line = line_no, hit_window = w\<rparr>"
    from w False "2.prems" have "slice_matches os radius (results @ [?h]) rest = Inr hits"
      by simp
    from "2.IH"(2) [OF w False this] obtain new where
      new: "hits = (results @ [?h]) @ new"
        "map (\<lambda>h. (hit_file h, hit_line h)) new =
           filter (\<lambda>m. \<exists>w. slice_window os (fst m) (snd m) radius = Inr w \<and> strip w \<noteq> []) rest"
        "\<forall>h\<in>set new. slice_window os (hit_file h) (hit_line h) radius = Inr (hit_window h) \<and>
           strip (hit_window h) \<noteq> []"
      by blast
    show ?thesis
    proof (intro exI [of _ "?h # new"] conjI)
      show "hits = results @ ?h # new"
        using new(1) by simp
      show "map (\<lambda>h. (hit_file h, hit_line h)) (?h # new) =
          filter (\<lambda>m. \<exists>w. slice_window os (fst m) (snd m) radius = Inr w \<and> strip w \<noteq> [])
            ((file_path, line_no) # rest)"
        using new(2) w False by simp
      show "\<forall>h\<in>set (?h # new). slice_window os (hit_file h) (hit_line h) radius = Inr (hit_window h) \<and>
           strip (hit_window h) \<noteq> []"
        using new(3) w False by simp
    qed
  qed
qed

lemma slice_matches_total:
  "\<forall>m\<in>set ms. \<exists>w. slice_window os (fst m) (snd m) r = Inr w \<Longrightarrow>
     \<exists>hits. slice_matches os r results ms = Inr hits"
proof (induction os r results ms rule: slice_matches.induct)
  case (1 os radius results)
  then show ?case by simp
next
  case (2 os radius results file_path line_no rest)
  then obtain w where w: "slice_window os file_path line_no radius = Inr w"
    by auto
  with 2 show ?case
    by (cases "strip w = []") auto
qed

text \<open>
  C6. Given the matches \<open>run_rg\<close> returned, \<open>search_and_slice\<close> returns (it does
  whenever no file read raises) a list that is no longer than the matches, holds no
  \<open>Hit\<close> whose window is empty or blank, and lists, in the order of the matches and
  with repetitions kept, exactly the matches whose window is not blank.
\<close>

theorem search_and_slice_filters:
  assumes "run_rg os repo_root pattern max_hits DEFAULT_EXCLUDE_GLOBS = (evs, Inr matches)"
  shows "((\<forall>m\<in>set matches. \<exists>w. slice_window os (fst m) (snd m) radius = Inr w) \<longrightarrow>
            (\<exists>hits. search_and_slice os repo_root pattern max_hits radius = (evs, Inr hits))) \<and>
         (\<forall>hits. search_and_slice os repo_root pattern max_hits radius = (evs, Inr hits) \<longrightarrow>
            length hits \<le> length matches \<and>
            (\<forall>h\<in>set hits. hit_window h \<noteq> [] \<and> strip (hit_window h) \<noteq> []) \<and>
            map (\<lambda>h. (hit_file h, hit_line h)) hits =
              filter (\<lambda>m. \<exists>w. slice_window os (fst m) (snd m) radius = Inr w \<and> strip w \<noteq> [])
                matches \<and>
            subseq (map (\<lambda>h. (hit_file h, hit_line h)) hits) matches)"
proof (intro conjI impI allI)
  assume "\<forall>m\<in>set matches. \<exists>w. slice_window os (fst m) (snd m) radius = Inr w"
  then obtain hits where "slice_matches os radius [] matches = Inr hits"
    using slice_matches_total by blast
  then show "\<exists>hits. search_and_slice os repo_root pattern max_hits radius = (evs, Inr hits)"
    using assms by (simp add: search_and_slice_def)
next
  fix hits
  assume sas: "search_and_slice os repo_root pattern max_hits radius = (evs, Inr hits)"
  let ?keep = "\<lambda>m. \<exists>w. slice_window os (fst m) (snd m) radius = Inr w \<and> strip w \<noteq> []"
  let ?key = "\<lambda>h. (hit_file h, hit_line h)"
  have "slice_matches os radius [] matches = Inr hits"
  proof (cases "matches = []")
    case True
    with sas assms show ?thesis
      by (simp add: search_and_slice_def)
  next
    case False
    with sas assms show ?thesis
      by (simp add: search_and_slice_def)
  qed
  from slice_matches_Inr [OF this]
  have key: "map ?key hits = filter ?keep matches"
    and win: "\<forall>h\<in>set hits. slice_window os (hit_file h) (hit_line h) radius = Inr (hit_window h) \<and>
          strip (hit_window h) \<noteq> []"
    by auto
  show "map ?key hits = filter ?keep matches"
    by (rule key)
  have "length hits = length (filter ?keep matches)"
    using key by (metis length_map)
  then show "length hits \<le> length matches"
    by simp
  show "\<forall>h\<in>set hits. hit_window h \<noteq> [] \<and> strip (hit_window h) \<noteq> []"
    using win by (auto simp: strip_def)
  show "subseq (map ?key hits) matches"
    unfolding key by simp
qed

subsection \<open>Runs on the small platform\<close>

lemmas demo_lines =
  line_begin_def line_match5_def line_match7_def line_gone3_def line_no_path_def
  line_float_def line_path_is_text_def line_text_is_number_def line_malformed_def json_text_def

lemma demo_json_loads:
  "json_loads (demo out err) line_begin =
     Inr (JDict [(ustr ''type'', JStr (ustr ''begin'')),
              (ustr ''data'', JDict [(ustr ''path'',
                 JDict [(ustr ''text'', JStr (ustr ''/repo/a.txt''))])])])"
  "json_loads (demo out err) line_match5 = Inr (match_record (ustr ''/repo/a.txt'') (JInt 5))"
  "json_loads (demo out err) line_match7 = Inr (match_record (ustr ''/repo/a.txt'') (JInt 7))"
  "json_loads (demo out err) line_gone3 = Inr (match_record (ustr ''/repo/gone.txt'') (JInt 3))"
  "json_loads (demo out err) line_no_path =
     Inr (JDict [(ustr ''type'', JStr (ustr ''match'')),
              (ustr ''data'', JDict [(ustr ''line_number'', JInt 5)])])"
  "json_loads (demo out err) line_float =
     Inr (match_record (ustr ''/repo/a.txt'') (JFloat (Finite 11 (- 1))))"
  "json_loads (demo out err) line_path_is_text =
     Inr (JDict [(ustr ''type'', JStr (ustr ''match'')),
              (ustr ''data'', JDict [(ustr ''path'', JStr (ustr ''/repo/a.txt'')),
                                     (ustr ''line_number'', JInt 5)])])"
  "json_loads (demo out err) line_text_is_number =
     Inr (JDict [(ustr ''type'', JStr (ustr ''match'')),
              (ustr ''data'', JDict [(ustr ''path'', JDict [(ustr ''text'', JInt 5)]),
                                     (ustr ''line_number'', JInt 5)])])"
  "json_loads (demo out err) line_malformed = Inl NotJSON"
  by (simp_all add: demo_def demo_json_def demo_lines)

lemma demo_lines_not_blank:
  "strip line_begin \<noteq> []" "strip line_match5 \<noteq> []" "strip line_match7 \<noteq> []"
  "strip line_gone3 \<noteq> []" "strip line_no_path \<noteq> []" "strip line_float \<noteq> []"
  "strip line_path_is_text \<noteq> []" "strip line_text_is_number \<noteq> []"
  "strip line_malformed \<noteq> []"
  by (simp_all add: strip_def is_space_def demo_lines)

lemma decode_line_match_record:
  "strip ln \<noteq> [] \<Longrightarrow> json_loads os ln = Inr (match_record t (JInt i)) \<Longrightarrow>
     decode_line os ln = Inr (Some (Path os t, PyInt i))"
  by (simp add: decode_line_def match_record_def dict_get_def or_empty_dict_def ustr_def)

lemma demo_decode_line:
  "decode_line (demo out err) [] = Inr None"
  "decode_line (demo out err) line_begin = Inr None"
  "decode_line (demo out err) line_match5 = Inr (Some (ustr ''/repo/a.txt'', PyInt 5))"
  "decode_line (demo out err) line_match7 = Inr (Some (ustr ''/repo/a.txt'', PyInt 7))"
  "decode_line (demo out err) line_gone3 = Inr (Some (ustr ''/repo/gone.txt'', PyInt 3))"
  "decode_line (demo out err) line_no_path = Inr None"
  "decode_line (demo out err) line_float = Inr None"
  "decode_line (demo out err) line_path_is_text = Inl AttributeError"
  "decode_line (demo out err) line_text_is_number = Inl TypeError"
  "decode_line (demo out err) line_malformed = Inl JSONDecodeError"
proof -
  have P: "Path (demo out err) = (\<lambda>t. t)"
    by (simp add: demo_def)
  show "decode_line (demo out err) [] = Inr None"
    by (simp add: decode_line_def strip_def)
  show "decode_line (demo out err) line_begin = Inr None"
    by (simp add: decode_line_def demo_json_loads demo_lines_not_blank dict_get_def ustr_def)
  show "decode_line (demo out err) line_match5 = Inr (Some (ustr ''/repo/a.txt'', PyInt 5))"
    by (simp add: decode_line_match_record demo_json_loads demo_lines_not_blank P)
  show "decode_line (demo out err) line_match7 = Inr (Some (ustr ''/repo/a.txt'', PyInt 7))"
    by (simp add: decode_line_match_record demo_json_loads demo_lines_not_blank P)
  show "decode_line (demo out err) line_gone3 = Inr (Some (ustr ''/repo/gone.txt'', PyInt 3))"
    by (simp add: decode_line_match_record demo_json_loads demo_lines_not_blank P)
  show "decode_line (demo out err) line_no_path = Inr None"
    by (simp add: decode_line_def demo_json_loads demo_lines_not_blank dict_get_def
        or_empty_dict_def ustr_def)
  show "decode_line (demo out err) line_float = Inr None"
    by (simp add: decode_line_def demo_json_loads demo_lines_not_blank dict_get_def
        or_empty_dict_def match_record_def ustr_def)
  show "decode_line (demo out err) line_path_is_text = Inl AttributeError"
    by (simp add: decode_line_def demo_json_loads demo_lines_not_blank dict_get_def
        or_empty_dict_def ustr_def)
  show "decode_line (demo out err) line_text_is_number = Inl TypeError"
    by (simp add: decode_line_def demo_json_loads demo_lines_not_blank dict_get_def
        or_empty_dict_def ustr_def)
  show "decode_line (demo out err) line_malformed = Inl JSONDecodeError"
    by (simp add: decode_line_def demo_json_loads demo_lines_not_blank)
qed

lemma splitlines_from_line:
  "\<forall>c\<in>set l. \<not> is_linebreak c \<Longrightarrow>
     splitlines_from cur (l @ 0x0A # rest) = (cur @ l) # splitlines_from [] rest"
proof (induction l arbitrary: cur)
  case Nil
  show ?case
    by (cases rest) (simp_all add: is_linebreak_def)
next
  case (Cons c l)
  then have c: "\<not> is_linebreak c" and l: "\<forall>c\<in>set l. \<not> is_linebreak c"
    by simp_all
  from c have c13: "c \<noteq> 0x0D"
    by (auto simp: is_linebreak_def)
  obtain d ds where d: "l @ 0x0A # rest = d # ds"
    by (cases "l @ 0x0A # rest") auto
  have "splitlines_from cur ((c # l) @ 0x0A # rest) = splitlines_from (cur @ [c]) (l @ 0x0A # rest)"
    using c c13 by (simp add: d)
  also have "\<dots> = ((cur @ [c]) @ l) # splitlines_from [] rest"
    by (rule Cons.IH [OF l])
  finally show ?case by simp
qed

lemma demo_lines_no_break:
  "\<forall>c\<in>set line_begin. \<not> is_linebreak c" "\<forall>c\<in>set line_match5. \<not> is_linebreak c"
  "\<forall>c\<in>set line_match7. \<not> is_linebreak c" "\<forall>c\<in>set line_gone3. \<not> is_linebreak c"
  "\<forall>c\<in>set line_no_path. \<not> is_linebreak c" "\<forall>c\<in>set line_float. \<not> is_linebreak c"
  "\<forall>c\<in>set line_path_is_text. \<not> is_linebreak c"
  "\<forall>c\<in>set line_text_is_number. \<not> is_linebreak c"
  "\<forall>c\<in>set line_malformed. \<not> is_linebreak c"
  by (simp_all add: is_linebreak_def demo_lines)

lemma splitlines_line:
  "\<forall>c\<in>set l. \<not> is_linebreak c \<Longrightarrow> splitlines (l @ 0x0A # rest) = l # splitlines rest"
  by (simp add: splitlines_def splitlines_from_line)

lemma strip_append_not_blank: "strip l \<noteq> [] \<Longrightarrow> strip (l @ rest) \<noteq> []"
  by (auto simp: strip_eq_Nil_iff)

lemma strip_Nil: "strip [] = []"
  by (simp add: strip_def)

lemma run_rg_decodes:
  assumes "path_exists os repo_root = Inr True" and "strip pattern \<noteq> []"
    and "subprocess_run os (rg_command repo_root pattern exclude_globs) = Inr proc"
    and "strip (or_empty_str (stdout proc)) \<noteq> []"
  shows "run_rg os repo_root pattern max_hits exclude_globs =
           ([Run (rg_command repo_root pattern exclude_globs)],
            decode_lines os max_hits [] (splitlines (or_empty_str (stdout proc))))"
  using assms by (simp add: run_rg_def Let_def)

lemma demo_basics:
  "path_exists (demo out err) (ustr ''/repo'') = Inr True"
  "strip (ustr ''five'') \<noteq> []"
  "subprocess_run (demo out err) cmd = Inr \<lparr>stdout = Some (mk_text out), stderr = Some (mk_text err)\<rparr>"
  "Path (demo out err) t = t"
  "resolve (demo out err) p = Inr p"
  by (simp_all add: demo_def ustr_def strip_def is_space_def)

lemma demo_lines_length:
  "length line_begin \<le> 100" "length line_match5 \<le> 100" "length line_match7 \<le> 100"
  "length line_gone3 \<le> 100" "length line_no_path \<le> 100" "length line_float \<le> 100"
  "length line_path_is_text \<le> 100" "length line_text_is_number \<le> 100"
  "length line_malformed \<le> 100"
  by (simp_all add: demo_lines)

lemma demo_run_rg:
  assumes "strip out \<noteq> []" and "length out \<le> 2 ^ 63 - 1"
  shows "run_rg (demo out err) (ustr ''/repo'') (ustr ''five'') max_hits globs =
           ([Run (rg_command (ustr ''/repo'') (ustr ''five'') globs)],
            decode_lines (demo out err) max_hits [] (splitlines out))"
  using assms
  by (simp add: run_rg_decodes [OF demo_basics(1) demo_basics(2) demo_basics(3)] or_empty_str_def
      chars_mk_text)

lemma demo_windows:
  "slice_window (demo out err) (ustr ''/repo/a.txt'') (PyInt 5) 2 =
     Inr (ustr ''/repo/a.txt:5 (lines 3-7)\<newline>three\<newline>four\<newline>five\<newline>six\<newline>seven'')"
  "slice_window (demo out err) (ustr ''/repo/gone.txt'') (PyInt 3) 2 = Inr []"
proof -
  show "slice_window (demo out err) (ustr ''/repo/a.txt'') (PyInt 5) 2 =
     Inr (ustr ''/repo/a.txt:5 (lines 3-7)\<newline>three\<newline>four\<newline>five\<newline>six\<newline>seven'')"
    by (simp add: slice_window_def demo_files_facts splitlines_a_txt format_header_def
        small_not_over_digit_limit py_slice_def slice_index_def)
      (simp add: window_header_def str_int_def str_nat.simps ustr_def)
  show "slice_window (demo out err) (ustr ''/repo/gone.txt'') (PyInt 3) 2 = Inr []"
    by (simp add: slice_window_def demo_files_facts)
qed

lemma window5_not_blank:
  "strip (ustr ''/repo/a.txt:5 (lines 3-7)\<newline>three\<newline>four\<newline>five\<newline>six\<newline>seven'') \<noteq> []"
  by (simp add: strip_def is_space_def ustr_def)


theorem search_and_slice_filters_witness:
  "run_rg (demo (line_match5 @ 0x0A # line_gone3 @ 0x0A # line_match5 @ [0x0A]) [])
     (ustr ''/repo'') (ustr ''five'') 8 DEFAULT_EXCLUDE_GLOBS =
     ([Run (rg_command (ustr ''/repo'') (ustr ''five'') DEFAULT_EXCLUDE_GLOBS)],
      Inr [(ustr ''/repo/a.txt'', PyInt 5), (ustr ''/repo/gone.txt'', PyInt 3),
           (ustr ''/repo/a.txt'', PyInt 5)]) \<and>
   search_and_slice (demo (line_match5 @ 0x0A # line_gone3 @ 0x0A # line_match5 @ [0x0A]) [])
     (ustr ''/repo'') (ustr ''five'') 8 2 =
     ([Run (rg_command (ustr ''/repo'') (ustr ''five'') DEFAULT_EXCLUDE_GLOBS)],
      Inr [\<lparr>hit_file = ustr ''/repo/a.txt'', hit_line = PyInt 5,
             hit_window = ustr ''/repo/a.txt:5 (lines 3-7)\<newline>three\<newline>four\<newline>five\<newline>six\<newline>seven''\<rparr>,
           \<lparr>hit_file = ustr ''/repo/a.txt'', hit_line = PyInt 5,
             hit_window = ustr ''/repo/a.txt:5 (lines 3-7)\<newline>three\<newline>four\<newline>five\<newline>six\<newline>seven''\<rparr>]) \<and>
   map (\<lambda>h. (hit_file h, hit_line h))
     [\<lparr>hit_file = ustr ''/repo/a.txt'', hit_line = PyInt 5,
        hit_window = ustr ''/repo/a.txt:5 (lines 3-7)\<newline>three\<newline>four\<newline>five\<newline>six\<newline>seven''\<rparr>,
      \<lparr>hit_file = ustr ''/repo/a.txt'', hit_line = PyInt 5,
        hit_window = ustr ''/repo/a.txt:5 (lines 3-7)\<newline>three\<newline>four\<newline>five\<newline>six\<newline>seven''\<rparr>] =
     [(ustr ''/repo/a.txt'', PyInt 5), (ustr ''/repo/a.txt'', PyInt 5)]"
proof -
  let ?out = "line_match5 @ 0x0A # line_gone3 @ 0x0A # line_match5 @ [0x0A]"
  let ?os = "demo ?out []"
  let ?evs = "[Run (rg_command (ustr ''/repo'') (ustr ''five'') DEFAULT_EXCLUDE_GLOBS)]"
  let ?matches = "[(ustr ''/repo/a.txt'', PyInt 5), (ustr ''/repo/gone.txt'', PyInt 3),
           (ustr ''/repo/a.txt'', PyInt 5)]"
  have nb: "strip ?out \<noteq> []"
    by (rule strip_append_not_blank) (rule demo_lines_not_blank)
  have len: "length ?out \<le> 2 ^ 63 - 1"
    using demo_lines_length by simp
  have sp: "splitlines ?out = [line_match5, line_gone3, line_match5]"
    by (simp add: splitlines_line demo_lines_no_break) (simp add: splitlines_def)
  have rr: "run_rg ?os (ustr ''/repo'') (ustr ''five'') 8 DEFAULT_EXCLUDE_GLOBS =
              (?evs, Inr ?matches)"
    by (simp add: demo_run_rg [OF nb len] sp demo_decode_line)
  have all: "\<forall>m\<in>set ?matches. \<exists>w. slice_window ?os (fst m) (snd m) 2 = Inr w"
    by (simp add: demo_windows)
  from search_and_slice_filters [OF rr, of 2, THEN conjunct1] all
  obtain hits where hits: "search_and_slice ?os (ustr ''/repo'') (ustr ''five'') 8 2 =
      (?evs, Inr hits)"
    by blast
  have "slice_matches ?os 2 [] ?matches = Inr hits"
    using hits rr by (simp add: search_and_slice_def)
  then have eq: "hits = [\<lparr>hit_file = ustr ''/repo/a.txt'', hit_line = PyInt 5,
             hit_window = ustr ''/repo/a.txt:5 (lines 3-7)\<newline>three\<newline>four\<newline>five\<newline>six\<newline>seven''\<rparr>,
           \<lparr>hit_file = ustr ''/repo/a.txt'', hit_line = PyInt 5,
             hit_window = ustr ''/repo/a.txt:5 (lines 3-7)\<newline>three\<newline>four\<newline>five\<newline>six\<newline>seven''\<rparr>]"
    by (simp add: demo_windows window5_not_blank strip_Nil)
  from search_and_slice_filters [OF rr, of 2, THEN conjunct2] hits
  have "subseq (map (\<lambda>h. (hit_file h, hit_line h)) hits) ?matches"
    by blast
  with eq hits rr show ?thesis
    by simp
qed

subsection \<open>C4: a blank pattern starts no search\<close>

text \<open>
  C4. When the repository root exists and the pattern is empty or holds whitespace
  only, \<open>run_rg\<close> returns the empty list and causes no event: \<open>subprocess.run\<close>
  is not called, and the outcome is the same whatever the process runner would do.
\<close>

theorem run_rg_blank_pattern:
  assumes "path_exists os repo_root = Inr True" and "\<forall>c\<in>set pattern. is_space c"
  shows "run_rg os repo_root pattern max_hits exclude_globs = ([], Inr []) \<and>
         run_rg (os\<lparr>subprocess_run := runner\<rparr>) repo_root pattern max_hits exclude_globs =
           ([], Inr [])"
proof -
  have "strip pattern = []"
    using assms(2) by (simp add: strip_eq_Nil_iff)
  then show ?thesis
    using assms(1) by (simp add: run_rg_def)
qed

theorem run_rg_blank_pattern_witness:
  "path_exists (demo line_match5 []) (ustr ''/repo'') = Inr True \<and>
   run_rg (demo line_match5 []) (ustr ''/repo'') [0x20, 0x09, 0x3000] 8 DEFAULT_EXCLUDE_GLOBS =
     ([], Inr []) \<and>
   run_rg (demo line_match5 []) (ustr ''/repo'') [] 8 DEFAULT_EXCLUDE_GLOBS = ([], Inr [])"
proof -
  have ex: "path_exists (demo line_match5 []) (ustr ''/repo'') = Inr True"
    by (rule demo_basics)
  have sp: "\<forall>c\<in>set [0x20, 0x09, 0x3000]. is_space c"
    by (simp add: is_space_def)
  have em: "\<forall>c\<in>set []. is_space c"
    by simp
  show ?thesis
    using ex run_rg_blank_pattern [OF ex sp, of 8 DEFAULT_EXCLUDE_GLOBS]
      run_rg_blank_pattern [OF ex em, of 8 DEFAULT_EXCLUDE_GLOBS]
    by simp
qed

subsection \<open>C7: an empty standard output\<close>




subsection \<open>The decoding loop\<close>




lemma decode_lines_bound:
  "decode_lines os m acc lns = Inr hits \<Longrightarrow>
     int (length hits) \<le> max m (int (length acc) + 1)"
proof (induction lns arbitrary: acc)
  case Nil
  then show ?case by auto
next
  case (Cons ln lns)
  show ?case
  proof (cases "decode_line os ln")
    case (Inl e)
    with Cons.prems show ?thesis by simp
  next
    case (Inr r)
    show ?thesis
    proof (cases r)
      case None
      with Inr Cons.prems have "decode_lines os m acc lns = Inr hits" by simp
      then show ?thesis by (rule Cons.IH)
    next
      case (Some h)
      show ?thesis
      proof (cases "m \<le> int (length (acc @ [h]))")
        case True
        with Inr Some Cons.prems have "hits = acc @ [h]" by (simp add: Let_def)
        then show ?thesis by simp
      next
        case False
        with Inr Some Cons.prems have "decode_lines os m (acc @ [h]) lns = Inr hits"
          by (simp add: Let_def)
        from Cons.IH [OF this] False show ?thesis by simp
      qed
    qed
  qed
qed

lemma decode_lines_stop:
  "decode_lines os m acc lns = Inr hits \<Longrightarrow> length acc < length hits \<Longrightarrow>
     m \<le> int (length hits) \<Longrightarrow> decode_lines os m acc (lns @ rest) = Inr hits"
proof (induction lns arbitrary: acc)
  case Nil
  then show ?case by simp
next
  case (Cons ln lns)
  show ?case
  proof (cases "decode_line os ln")
    case (Inl e)
    with Cons.prems show ?thesis by simp
  next
    case (Inr r)
    show ?thesis
    proof (cases r)
      case None
      with Inr Cons.prems have "decode_lines os m acc lns = Inr hits" by simp
      from Cons.IH [OF this Cons.prems(2,3)] Inr None show ?thesis by simp
    next
      case (Some h)
      show ?thesis
      proof (cases "m \<le> int (length (acc @ [h]))")
        case True
        with Inr Some Cons.prems show ?thesis by (simp add: Let_def)
      next
        case False
        with Inr Some Cons.prems have d: "decode_lines os m (acc @ [h]) lns = Inr hits"
          by (simp add: Let_def)
        have "length (acc @ [h]) < length hits"
          using False Cons.prems(3) by simp
        from Cons.IH [OF d this Cons.prems(3)] Inr Some False show ?thesis
          by (simp add: Let_def)
      qed
    qed
  qed
qed



text \<open>The four ways in which \<open>run_rg\<close> returns.\<close>

lemma run_rg_Inr:
  assumes "run_rg os repo_root pattern max_hits exclude_globs = (evs, Inr hits)"
  shows "path_exists os repo_root = Inr True \<and>
         (strip pattern = [] \<and> evs = [] \<and> hits = [] \<or>
          strip pattern \<noteq> [] \<and>
          (\<exists>proc. subprocess_run os (rg_command repo_root pattern exclude_globs) = Inr proc \<and>
             (strip (or_empty_str (stdout proc)) = [] \<and> hits = [] \<and>
                (strip (or_empty_str (stderr proc)) = [] \<and>
                   evs = [Run (rg_command repo_root pattern exclude_globs)] \<or>
                 strip (or_empty_str (stderr proc)) \<noteq> [] \<and>
                   evs = [Run (rg_command repo_root pattern exclude_globs),
                          Print (strip (or_empty_str (stderr proc)))]) \<or>
              strip (or_empty_str (stdout proc)) \<noteq> [] \<and>
                evs = [Run (rg_command repo_root pattern exclude_globs)] \<and>
                decode_lines os max_hits [] (splitlines (or_empty_str (stdout proc))) =
                  Inr hits)))"
proof (cases "path_exists os repo_root")
  case (Inl e)
  with assms show ?thesis
    by (simp add: run_rg_def)
next
  case (Inr found)
  show ?thesis
  proof (cases "subprocess_run os (rg_command repo_root pattern exclude_globs)")
    case (Inl e)
    with assms Inr show ?thesis
      by (auto simp: run_rg_def Let_def split: if_splits)
  next
    case proc: (Inr proc)
    with assms Inr show ?thesis
      by (auto simp: run_rg_def Let_def split: if_splits)
  qed
qed




subsection \<open>C3: the cap on the number of matches\<close>

text \<open>
  C3 as stated fails. With a requested maximum of 0 and two match records in the
  output, \<open>run_rg\<close> returns one match: the cap is tested after a match has been
  appended.
\<close>

theorem run_rg_zero_cap_returns_a_match:
  "run_rg (demo (line_match5 @ 0x0A # line_match7 @ [0x0A]) []) (ustr ''/repo'') (ustr ''five'') 0
     DEFAULT_EXCLUDE_GLOBS =
     ([Run (rg_command (ustr ''/repo'') (ustr ''five'') DEFAULT_EXCLUDE_GLOBS)],
      Inr [(ustr ''/repo/a.txt'', PyInt 5)])"
proof -
  let ?out = "line_match5 @ 0x0A # line_match7 @ [0x0A]"
  have nb: "strip ?out \<noteq> []"
    by (rule strip_append_not_blank) (rule demo_lines_not_blank)
  have len: "length ?out \<le> 2 ^ 63 - 1"
    using demo_lines_length by simp
  have sp: "splitlines ?out = [line_match5, line_match7]"
    by (simp add: splitlines_line demo_lines_no_break) (simp add: splitlines_def)
  show ?thesis
    by (simp add: demo_run_rg [OF nb len] sp demo_decode_line)
qed

text \<open>
  C3, amended. \<open>run_rg\<close> never returns more than \<open>max_hits\<close> matches when
  \<open>max_hits\<close> is at least 1, and never more than one match when it is 0 or negative.
  Decoding stops at the match that reaches the cap: the lines after it are not
  decoded, whatever they hold.
\<close>

theorem decoder_cap:
  "(run_rg os repo_root pattern max_hits exclude_globs = (evs, Inr hits) \<longrightarrow>
      int (length hits) \<le> max max_hits 1) \<and>
   (decode_lines os max_hits [] lns = Inr found \<and> found \<noteq> [] \<and>
      max_hits \<le> int (length found) \<longrightarrow>
      decode_lines os max_hits [] (lns @ rest) = Inr found)"
proof (intro conjI impI)
  assume "run_rg os repo_root pattern max_hits exclude_globs = (evs, Inr hits)"
  from run_rg_Inr [OF this]
  have "hits = [] \<or> (\<exists>lns'. decode_lines os max_hits [] lns' = Inr hits)"
    by blast
  then consider "hits = []" | lns' where "decode_lines os max_hits [] lns' = Inr hits"
    by blast
  then show "int (length hits) \<le> max max_hits 1"
  proof cases
    case 1
    then show ?thesis by simp
  next
    case 2
    from decode_lines_bound [OF this] show ?thesis by simp
  qed
next
  assume a: "decode_lines os max_hits [] lns = Inr found \<and> found \<noteq> [] \<and>
      max_hits \<le> int (length found)"
  then have "length ([] :: (path \<times> pyint) list) < length found"
    by simp
  with a show "decode_lines os max_hits [] (lns @ rest) = Inr found"
    using decode_lines_stop by blast
qed

theorem decoder_cap_witness:
  "run_rg (demo (line_match5 @ 0x0A # line_match7 @ 0x0A # line_malformed @ [0x0A]) [])
     (ustr ''/repo'') (ustr ''five'') 2 DEFAULT_EXCLUDE_GLOBS =
     ([Run (rg_command (ustr ''/repo'') (ustr ''five'') DEFAULT_EXCLUDE_GLOBS)],
      Inr [(ustr ''/repo/a.txt'', PyInt 5), (ustr ''/repo/a.txt'', PyInt 7)]) \<and>
   int (length [(ustr ''/repo/a.txt'', PyInt 5), (ustr ''/repo/a.txt'', PyInt 7)]) \<le> max 2 1"
proof -
  let ?out = "line_match5 @ 0x0A # line_match7 @ 0x0A # line_malformed @ [0x0A]"
  let ?os = "demo ?out []"
  let ?found = "[(ustr ''/repo/a.txt'', PyInt 5), (ustr ''/repo/a.txt'', PyInt 7)]"
  have nb: "strip ?out \<noteq> []"
    by (rule strip_append_not_blank) (rule demo_lines_not_blank)
  have len: "length ?out \<le> 2 ^ 63 - 1"
    using demo_lines_length by simp
  have sp: "splitlines ?out = [line_match5, line_match7] @ [line_malformed]"
    by (simp add: splitlines_line demo_lines_no_break) (simp add: splitlines_def)
  have two: "decode_lines ?os 2 [] [line_match5, line_match7] = Inr ?found"
    by (simp add: demo_decode_line)
  have "decode_lines ?os 2 [] ([line_match5, line_match7] @ [line_malformed]) = Inr ?found"
    using decoder_cap [where os = ?os and max_hits = 2 and lns = "[line_match5, line_match7]"
        and found = ?found and rest = "[line_malformed]", THEN conjunct2] two
    by simp
  then have rr: "run_rg ?os (ustr ''/repo'') (ustr ''five'') 2 DEFAULT_EXCLUDE_GLOBS =
     ([Run (rg_command (ustr ''/repo'') (ustr ''five'') DEFAULT_EXCLUDE_GLOBS)], Inr ?found)"
    by (simp only: demo_run_rg [OF nb len] sp)
  from decoder_cap [where os = ?os and max_hits = 2 and hits = ?found, THEN conjunct1] rr
  have "int (length ?found) \<le> max 2 1"
    by blast
  with rr show ?thesis
    by blast
qed

subsection \<open>C5: the repository root that does not exist\<close>






subsection \<open>C1: records the decoder skips, and the line it cannot read\<close>










subsection \<open>C9: the exit status and the output of \<open>main\<close>\<close>









end
